theory Spec2Isabelle
  imports Main
begin

section \<open>Script values and the engine interface used by FileSystemJsObject.cpp\<close>

text \<open>
  A script value. Only the shapes that FileSystemJsObject.cpp distinguishes are kept:
  functions (callback handles, identified by a number), strings and string buffers
  (a byte sequence: a HOL \<open>char\<close> is one 8-bit byte), booleans, numbers, and objects
  with named properties in insertion order.
\<close>

datatype JsValue =
    JsUndefined
  | JsBool bool
  | JsNumber int
  | JsString string
  | JsFunction nat
  | JsObject "(string \<times> JsValue) list"

type_synonym JsValueList = "JsValue list"

text \<open>\<open>IFileSystem::IOBuffer\<close> and \<open>StringBuffer\<close>: a vector of bytes.\<close>

type_synonym IOBuffer = string

text \<open>\<open>IFileSystem::StatResult\<close>.\<close>

record StatResult =
  exists :: bool
  lastModified :: int

text \<open>
  Everything that can leave a dispatcher or a completion handler other than by a normal
  return.
\<close>

datatype error =
    JsException string   \<comment> \<open>\<open>ThrowExceptionInJS(isolate, message)\<close>\<close>
  | TypeError            \<comment> \<open>\<open>AsString\<close>/\<open>AsStringBuffer\<close> on a value of the wrong kind\<close>
  | RuntimeError string  \<comment> \<open>\<open>throw std::runtime_error(message)\<close>\<close>
  | UnknownToken         \<comment> \<open>\<open>TakeJsValues\<close> on a token that is not stored\<close>
  | OutOfRange           \<comment> \<open>\<open>jsValues[i]\<close> beyond the end of the taken group\<close>

text \<open>
  Modelled from the spec: \<open>JsValue::IsFunction\<close> is declared in JsValue.h, which is not
  part of the sources at hand. "IsFunction(value) -> bool: used purely for validation,
  never throws."
\<close>

fun IsFunction :: "JsValue \<Rightarrow> bool" where
  "IsFunction (JsFunction f) = True"
| "IsFunction v = False"

text \<open>
  Modelled from the spec: \<open>JsValue::AsString\<close> is not part of the sources at hand.
  "AsString(value) -> text: fails with TypeError if the value is not string-like."
\<close>

fun AsString :: "JsValue \<Rightarrow> error + string" where
  "AsString (JsString s) = Inr s"
| "AsString v = Inl TypeError"

text \<open>
  Modelled from the spec: \<open>JsValue::AsStringBuffer\<close> is not part of the sources at hand.
  "AsBuffer(value) -> bytes: fails with TypeError if not a buffer-like value."
\<close>

fun AsStringBuffer :: "JsValue \<Rightarrow> error + IOBuffer" where
  "AsStringBuffer (JsString s) = Inr s"
| "AsStringBuffer v = Inl TypeError"

text \<open>
  Modelled from the spec: \<open>JsEngine::NewObject\<close>, \<open>JsEngine::NewValue\<close>,
  \<open>JsValue::SetProperty\<close> and \<open>JsValue::SetStringBufferProperty\<close> are not part of the
  sources at hand. A result object starts without properties; setting a property
  replaces an existing one of the same name or appends a new one ("attach an error field
  to an otherwise-normal result object"). The completion handlers set properties on
  fresh objects only.
\<close>

definition NewObject :: JsValue where
  "NewObject = JsObject []"

fun setProp :: "string \<Rightarrow> JsValue \<Rightarrow> (string \<times> JsValue) list \<Rightarrow> (string \<times> JsValue) list" where
  "setProp name v [] = [(name, v)]"
| "setProp name v ((k, w) # ps) = (if k = name then (k, v) # ps else (k, w) # setProp name v ps)"

fun SetProperty :: "string \<Rightarrow> JsValue \<Rightarrow> JsValue \<Rightarrow> JsValue" where
  "SetProperty name v (JsObject ps) = JsObject (setProp name v ps)"
| "SetProperty name v other = other"

definition SetStringBufferProperty :: "string \<Rightarrow> IOBuffer \<Rightarrow> JsValue \<Rightarrow> JsValue" where
  "SetStringBufferProperty name content obj = SetProperty name (JsString content) obj"

definition NewValue :: "string \<Rightarrow> JsValue" where
  "NewValue s = JsString s"

fun GetProperty :: "string \<Rightarrow> JsValue \<Rightarrow> JsValue option" where
  "GetProperty name (JsObject ps) = map_of ps name"
| "GetProperty name other = None"

definition HasProperty :: "string \<Rightarrow> JsValue \<Rightarrow> bool" where
  "HasProperty name obj = (GetProperty name obj \<noteq> None)"

section \<open>Engine state: the callback registry and the filesystem service's queue\<close>

text \<open>
  The completion closure handed to the filesystem service. Each lambda of the source
  captures the weak engine reference and the registry token \<open>weakCallback\<close>; the
  constructor says which lambda it is.
\<close>

datatype Completion =
    ReadCompletion nat
  | ReadFromFileCompletion nat
  | WriteCompletion nat
  | MoveCompletion nat
  | RemoveCompletion nat
  | StatCompletion nat

text \<open>The calls made on \<open>IFileSystem\<close> inside \<open>WithFileSystem\<close>.\<close>

datatype FsRequest =
    FsRead string Completion
  | FsWrite string IOBuffer Completion
  | FsMove string string Completion
  | FsRemove string Completion
  | FsStat string Completion

text \<open>
  The engine, as far as the dispatchers and handlers touch it: the registry of stored
  callback groups with the next token to hand out, whether the global object of the v8
  context answers \<open>IsObject()\<close> (line 133 tests it), and the requests handed to the
  filesystem service of the platform, oldest first.
\<close>

record JsEngine =
  jsWeakValuesLists :: "(nat \<times> JsValueList) list"
  nextWeakValuesID :: nat
  globalIsObject :: bool
  fileSystemRequests :: "FsRequest list"

text \<open>
  Modelled from the spec: \<open>JsEngine::StoreJsValues\<close> and \<open>JsEngine::TakeJsValues\<close> are
  not part of the sources at hand. "Store(handles: ordered sequence of callback handles)
  -> token; Take(token) -> ordered sequence of callback handles (removes the group; fails
  fatally/asserts if the token is unknown)", with the token "a monotonically generated
  ... identifier".
\<close>

definition StoreJsValues :: "JsValueList \<Rightarrow> JsEngine \<Rightarrow> nat \<times> JsEngine" where
  "StoreJsValues values jsEngine =
     (nextWeakValuesID jsEngine,
      jsEngine\<lparr>jsWeakValuesLists := (nextWeakValuesID jsEngine, values) # jsWeakValuesLists jsEngine,
               nextWeakValuesID := Suc (nextWeakValuesID jsEngine)\<rparr>)"

definition TakeJsValues :: "nat \<Rightarrow> JsEngine \<Rightarrow> (JsValueList \<times> JsEngine) option" where
  "TakeJsValues token jsEngine =
     (case map_of (jsWeakValuesLists jsEngine) token of
        None \<Rightarrow> None
      | Some values \<Rightarrow>
          Some (values,
                jsEngine\<lparr>jsWeakValuesLists := filter (\<lambda>kv. fst kv \<noteq> token) (jsWeakValuesLists jsEngine)\<rparr>))"

text \<open>
  Modelled from the spec: \<open>Platform::WithFileSystem\<close> and the filesystem service are not
  part of the sources at hand. \<open>jsEngine->GetPlatform().WithFileSystem(f)\<close> runs \<open>f\<close> on
  the filesystem service; the \<open>f\<close> of every dispatcher makes one call on it, which
  "submits an operation to the filesystem service, passing a completion handler closure":
  the request is recorded here, and the closure is run later by \<open>runHandler\<close>.
\<close>

definition WithFileSystem :: "FsRequest \<Rightarrow> JsEngine \<Rightarrow> JsEngine" where
  "WithFileSystem request jsEngine =
     jsEngine\<lparr>fileSystemRequests := fileSystemRequests jsEngine @ [request]\<rparr>"

section \<open>Script callbacks\<close>

text \<open>
  What \<open>v8::TryCatch\<close> holds after a call into script code: nothing, or the thrown value
  with its message.
\<close>

datatype TryCatch = NoException | Caught JsValue string

fun HasCaught :: "TryCatch \<Rightarrow> bool" where
  "HasCaught NoException = False"
| "HasCaught (Caught exception message) = True"

text \<open>
  The script side is a parameter of the model: \<open>invoke f params s\<close> runs the script
  function \<open>f\<close> on \<open>params\<close> in script state \<open>s\<close> and gives what a \<open>v8::TryCatch\<close> around
  the call sees, with the new script state; \<open>describe exception message\<close> is the text the
  engine has for a caught exception, its first character apart from the rest.
\<close>

record 's Script =
  invoke :: "JsValue \<Rightarrow> JsValueList \<Rightarrow> 's \<Rightarrow> TryCatch \<times> 's"
  describe :: "JsValue \<Rightarrow> string \<Rightarrow> char \<times> string"

text \<open>
  Modelled from the spec: \<open>JsError::ExceptionToString\<close> is not part of the sources at hand.
  Its result is "the exception description", which the completion callback receives as
  "a non-empty error" (in this interface an empty error string stands for success). How
  the text is made from the exception and its message is left to the script parameter;
  that it has a first character is the specification's.
\<close>

definition ExceptionToString :: "'s Script \<Rightarrow> JsValue \<Rightarrow> string \<Rightarrow> string" where
  "ExceptionToString sc exception message =
     fst (describe sc exception message) # snd (describe sc exception message)"

text \<open>One invocation of a callback handle, as observed from outside.\<close>

datatype Invocation = Invoked JsValue JsValueList

fun callee :: "Invocation \<Rightarrow> JsValue" where
  "callee (Invoked f params) = f"

fun params :: "Invocation \<Rightarrow> JsValueList" where
  "params (Invoked f ps) = ps"

text \<open>
  What a completion handler did: the callback invocations in order, the fault that left
  the handler (if any), the engine afterwards (\<open>None\<close> when it no longer exists) and the
  script state afterwards.
\<close>

record 's Outcome =
  calls :: "Invocation list"
  fault :: "error option"
  engineAfter :: "JsEngine option"
  scriptAfter :: 's

text \<open>
  Modelled from the spec: \<open>JsValue::Call\<close> is not part of the sources at hand. It
  invokes the callback handle with the given script values. No handler of the source
  looks at what such a call returns or throws.
\<close>

definition Call :: "'s Script \<Rightarrow> JsValue \<Rightarrow> JsValueList \<Rightarrow> 's \<Rightarrow> Invocation \<times> 's" where
  "Call sc f ps s = (Invoked f ps, snd (invoke sc f ps s))"

section \<open>Line scanning\<close>

text \<open>
  \<open>IsEndOfLine(char c)\<close>: line feed or carriage return. Bytes from 128 on become negative
  \<open>char\<close>s in the source and equal neither 10 nor 13, as here.
\<close>

definition IsEndOfLine :: "char \<Rightarrow> bool" where
  "IsEndOfLine c = (of_char c = (10::nat) \<or> of_char c = (13::nat))"

text \<open>
  An iterator \<open>ii\<close> with its \<open>end\<close> is modelled by the bytes from \<open>ii\<close> up to \<open>end\<close>:
  \<open>ii != end\<close> is "the list is not empty", \<open>*ii\<close> its head and \<open>++ii\<close> its tail.
\<close>

fun SkipEndOfLine :: "IOBuffer \<Rightarrow> IOBuffer" where
  "SkipEndOfLine [] = []"
| "SkipEndOfLine (c # cs) = (if IsEndOfLine c then SkipEndOfLine cs else c # cs)"

fun AdvanceToEndOfLine :: "IOBuffer \<Rightarrow> IOBuffer" where
  "AdvanceToEndOfLine [] = []"
| "AdvanceToEndOfLine (c # cs) = (if \<not> IsEndOfLine c then AdvanceToEndOfLine cs else c # cs)"

text \<open>\<open>StringBuffer(stringBegin, stringEnd)\<close>: the bytes between two iterators.\<close>

definition StringBufferRange :: "IOBuffer \<Rightarrow> IOBuffer \<Rightarrow> IOBuffer" where
  "StringBufferRange stringBegin stringEnd = take (length stringBegin - length stringEnd) stringBegin"

lemma length_SkipEndOfLine: "length (SkipEndOfLine cs) \<le> length cs"
  by (induction cs) auto

lemma length_AdvanceToEndOfLine: "length (AdvanceToEndOfLine cs) \<le> length cs"
  by (induction cs) auto

lemma SkipEndOfLine_Advance_shorter:
  "SkipEndOfLine (AdvanceToEndOfLine cs) \<noteq> [] \<Longrightarrow>
   length (SkipEndOfLine (AdvanceToEndOfLine cs)) < length cs"
proof (cases cs)
  case Nil
  assume "SkipEndOfLine (AdvanceToEndOfLine cs) \<noteq> []"
  with Nil show ?thesis by simp
next
  case (Cons c cs')
  show ?thesis
  proof (cases "IsEndOfLine c")
    case True
    have "length (SkipEndOfLine cs') \<le> length cs'" by (rule length_SkipEndOfLine)
    with True Cons show ?thesis by simp
  next
    case False
    have "length (SkipEndOfLine (AdvanceToEndOfLine cs')) \<le> length (AdvanceToEndOfLine cs')"
      by (rule length_SkipEndOfLine)
    also have "\<dots> \<le> length cs'" by (rule length_AdvanceToEndOfLine)
    finally show ?thesis using False Cons by simp
  qed
qed

text \<open>
  The \<open>do ... while (stringBegin != contentEnd)\<close> loop of the streaming read. The body
  runs before the loop condition is tested for the first time.
\<close>

function ProcessLines ::
  "'s Script \<Rightarrow> JsValue \<Rightarrow> JsValue \<Rightarrow> IOBuffer \<Rightarrow> 's \<Rightarrow> Invocation list \<times> 's" where
  "ProcessLines sc processFunc done stringBegin s =
     (let stringEnd = AdvanceToEndOfLine stringBegin;
          jsLine = JsString (StringBufferRange stringBegin stringEnd)
      in case invoke sc processFunc [jsLine] s of
           (Caught exception message, s1) \<Rightarrow>
             (case Call sc done [NewValue (ExceptionToString sc exception message)] s1 of
                (c, s2) \<Rightarrow> ([Invoked processFunc [jsLine], c], s2))
         | (NoException, s1) \<Rightarrow>
             (if SkipEndOfLine stringEnd \<noteq> []
              then (case ProcessLines sc processFunc done (SkipEndOfLine stringEnd) s1 of
                      (cs, s2) \<Rightarrow> (Invoked processFunc [jsLine] # cs, s2))
              else (case Call sc done [] s1 of
                      (c, s2) \<Rightarrow> ([Invoked processFunc [jsLine], c], s2))))"
  by pat_completeness auto
termination
  by (relation "measure (\<lambda>(sc, processFunc, done, stringBegin, s). length stringBegin)")
     (auto simp: SkipEndOfLine_Advance_shorter)

declare ProcessLines.simps [simp del]

section \<open>Completion handlers\<close>

text \<open>
  The handlers are the lambdas the dispatchers pass to the filesystem service: \<open>ReadDone\<close>
  is the one \<open>ReadCallback\<close> passes to \<open>fileSystem.Read\<close> (lines 55 to 68),
  \<open>ReadFromFileDone\<close> the one of \<open>ReadFromFileCallback\<close> (lines 114 to 153), and so on.
  \<open>weakJsEngine\<close> is what \<open>weakJsEngine.lock()\<close> finds when the handler runs: the engine
  in its current state, or nothing once the engine has been destroyed. Indexing the taken
  group beyond its end is undefined in the source and a fault here; the dispatchers store
  groups of the length their handlers index.
\<close>

definition returned :: "Invocation list \<Rightarrow> JsEngine \<Rightarrow> 's \<Rightarrow> 's Outcome" where
  "returned cs jsEngine s = \<lparr>calls = cs, fault = None, engineAfter = Some jsEngine, scriptAfter = s\<rparr>"

definition faulted :: "error \<Rightarrow> JsEngine \<Rightarrow> 's \<Rightarrow> 's Outcome" where
  "faulted e jsEngine s = \<lparr>calls = [], fault = Some e, engineAfter = Some jsEngine, scriptAfter = s\<rparr>"

definition engineGone :: "'s \<Rightarrow> 's Outcome" where
  "engineGone s = \<lparr>calls = [], fault = None, engineAfter = None, scriptAfter = s\<rparr>"

text \<open>The result object of \<open>read\<close> (lines 63 to 66).\<close>

definition ReadResultObject :: "IOBuffer \<Rightarrow> string \<Rightarrow> JsValue" where
  "ReadResultObject content error =
     (let result = NewObject;
          result = SetStringBufferProperty ''content'' content result
      in if error \<noteq> [] then SetProperty ''error'' (NewValue error) result else result)"

definition ReadDone ::
  "'s Script \<Rightarrow> JsEngine option \<Rightarrow> nat \<Rightarrow> IOBuffer \<Rightarrow> string \<Rightarrow> 's \<Rightarrow> 's Outcome" where
  "ReadDone sc weakJsEngine weakCallback content error s =
     (case weakJsEngine of
        None \<Rightarrow> engineGone s
      | Some jsEngine \<Rightarrow>
          (let result = ReadResultObject content error
           in case TakeJsValues weakCallback jsEngine of
                None \<Rightarrow> faulted UnknownToken jsEngine s
              | Some (jsValues, jsEngine1) \<Rightarrow>
                  (case jsValues of
                     [] \<Rightarrow> faulted OutOfRange jsEngine1 s
                   | callback # rest \<Rightarrow>
                       (case Call sc callback [result] s of
                          (c, s1) \<Rightarrow> returned [c] jsEngine1 s1))))"

definition ReadFromFileDone ::
  "'s Script \<Rightarrow> JsEngine option \<Rightarrow> nat \<Rightarrow> IOBuffer \<Rightarrow> string \<Rightarrow> 's \<Rightarrow> 's Outcome" where
  "ReadFromFileDone sc weakJsEngine weakCallback content error s =
     (case weakJsEngine of
        None \<Rightarrow> engineGone s
      | Some jsEngine \<Rightarrow>
          (case TakeJsValues weakCallback jsEngine of
             None \<Rightarrow> faulted UnknownToken jsEngine s
           | Some (jsValues, jsEngine1) \<Rightarrow>
               (case jsValues of
                  processFunc # done # rest \<Rightarrow>
                    (if error \<noteq> []
                     then (case Call sc done [NewValue error] s of
                             (c, s1) \<Rightarrow> returned [c] jsEngine1 s1)
                     else if \<not> globalIsObject jsEngine1
                     then faulted (RuntimeError ''`this` pointer has to be an object'') jsEngine1 s
                     else (case ProcessLines sc processFunc done (SkipEndOfLine content) s of
                             (cs, s1) \<Rightarrow> returned cs jsEngine1 s1))
                | short \<Rightarrow> faulted OutOfRange jsEngine1 s)))"

text \<open>
  \<open>write\<close>, \<open>move\<close> and \<open>remove\<close> have the same completion lambda, written out three times
  in the source.
\<close>

definition ErrorParams :: "string \<Rightarrow> JsValueList" where
  "ErrorParams error = (if error \<noteq> [] then [NewValue error] else [])"

definition WriteDone :: "'s Script \<Rightarrow> JsEngine option \<Rightarrow> nat \<Rightarrow> string \<Rightarrow> 's \<Rightarrow> 's Outcome" where
  "WriteDone sc weakJsEngine weakCallback error s =
     (case weakJsEngine of
        None \<Rightarrow> engineGone s
      | Some jsEngine \<Rightarrow>
          (let params = ErrorParams error
           in case TakeJsValues weakCallback jsEngine of
                None \<Rightarrow> faulted UnknownToken jsEngine s
              | Some (jsValues, jsEngine1) \<Rightarrow>
                  (case jsValues of
                     [] \<Rightarrow> faulted OutOfRange jsEngine1 s
                   | callback # rest \<Rightarrow>
                       (case Call sc callback params s of
                          (c, s1) \<Rightarrow> returned [c] jsEngine1 s1))))"

definition MoveDone :: "'s Script \<Rightarrow> JsEngine option \<Rightarrow> nat \<Rightarrow> string \<Rightarrow> 's \<Rightarrow> 's Outcome" where
  "MoveDone sc weakJsEngine weakCallback error s =
     (case weakJsEngine of
        None \<Rightarrow> engineGone s
      | Some jsEngine \<Rightarrow>
          (let params = ErrorParams error
           in case TakeJsValues weakCallback jsEngine of
                None \<Rightarrow> faulted UnknownToken jsEngine s
              | Some (jsValues, jsEngine1) \<Rightarrow>
                  (case jsValues of
                     [] \<Rightarrow> faulted OutOfRange jsEngine1 s
                   | callback # rest \<Rightarrow>
                       (case Call sc callback params s of
                          (c, s1) \<Rightarrow> returned [c] jsEngine1 s1))))"

definition RemoveDone :: "'s Script \<Rightarrow> JsEngine option \<Rightarrow> nat \<Rightarrow> string \<Rightarrow> 's \<Rightarrow> 's Outcome" where
  "RemoveDone sc weakJsEngine weakCallback error s =
     (case weakJsEngine of
        None \<Rightarrow> engineGone s
      | Some jsEngine \<Rightarrow>
          (let params = ErrorParams error
           in case TakeJsValues weakCallback jsEngine of
                None \<Rightarrow> faulted UnknownToken jsEngine s
              | Some (jsValues, jsEngine1) \<Rightarrow>
                  (case jsValues of
                     [] \<Rightarrow> faulted OutOfRange jsEngine1 s
                   | callback # rest \<Rightarrow>
                       (case Call sc callback params s of
                          (c, s1) \<Rightarrow> returned [c] jsEngine1 s1))))"

text \<open>The result object of \<open>stat\<close> (lines 292 to 297).\<close>

definition StatResultObject :: "StatResult \<Rightarrow> string \<Rightarrow> JsValue" where
  "StatResultObject statResult error =
     (let result = NewObject;
          result = SetProperty ''exists'' (JsBool (exists statResult)) result;
          result = SetProperty ''lastModified'' (JsNumber (lastModified statResult)) result
      in if error \<noteq> [] then SetProperty ''error'' (NewValue error) result else result)"

definition StatDone ::
  "'s Script \<Rightarrow> JsEngine option \<Rightarrow> nat \<Rightarrow> StatResult \<Rightarrow> string \<Rightarrow> 's \<Rightarrow> 's Outcome" where
  "StatDone sc weakJsEngine weakCallback statResult error s =
     (case weakJsEngine of
        None \<Rightarrow> engineGone s
      | Some jsEngine \<Rightarrow>
          (let result = StatResultObject statResult error;
               params = [result]
           in case TakeJsValues weakCallback jsEngine of
                None \<Rightarrow> faulted UnknownToken jsEngine s
              | Some (jsValues, jsEngine1) \<Rightarrow>
                  (case jsValues of
                     [] \<Rightarrow> faulted OutOfRange jsEngine1 s
                   | callback # rest \<Rightarrow>
                       (case Call sc callback params s of
                          (c, s1) \<Rightarrow> returned [c] jsEngine1 s1))))"

text \<open>
  One run of a completion lambda by the filesystem service: which lambda, the token it
  captured, and the arguments the service passes.
\<close>

datatype HandlerCall =
    OnRead nat IOBuffer string
  | OnReadFromFile nat IOBuffer string
  | OnWrite nat string
  | OnMove nat string
  | OnRemove nat string
  | OnStat nat StatResult string

fun runHandler :: "'s Script \<Rightarrow> JsEngine option \<Rightarrow> HandlerCall \<Rightarrow> 's \<Rightarrow> 's Outcome" where
  "runHandler sc weakJsEngine (OnRead weakCallback content error) s =
     ReadDone sc weakJsEngine weakCallback content error s"
| "runHandler sc weakJsEngine (OnReadFromFile weakCallback content error) s =
     ReadFromFileDone sc weakJsEngine weakCallback content error s"
| "runHandler sc weakJsEngine (OnWrite weakCallback error) s =
     WriteDone sc weakJsEngine weakCallback error s"
| "runHandler sc weakJsEngine (OnMove weakCallback error) s =
     MoveDone sc weakJsEngine weakCallback error s"
| "runHandler sc weakJsEngine (OnRemove weakCallback error) s =
     RemoveDone sc weakJsEngine weakCallback error s"
| "runHandler sc weakJsEngine (OnStat weakCallback statResult error) s =
     StatDone sc weakJsEngine weakCallback statResult error s"

fun handlerClosure :: "HandlerCall \<Rightarrow> Completion" where
  "handlerClosure (OnRead weakCallback content error) = ReadCompletion weakCallback"
| "handlerClosure (OnReadFromFile weakCallback content error) = ReadFromFileCompletion weakCallback"
| "handlerClosure (OnWrite weakCallback error) = WriteCompletion weakCallback"
| "handlerClosure (OnMove weakCallback error) = MoveCompletion weakCallback"
| "handlerClosure (OnRemove weakCallback error) = RemoveCompletion weakCallback"
| "handlerClosure (OnStat weakCallback statResult error) = StatCompletion weakCallback"

fun nativeError :: "HandlerCall \<Rightarrow> string" where
  "nativeError (OnRead weakCallback content error) = error"
| "nativeError (OnReadFromFile weakCallback content error) = error"
| "nativeError (OnWrite weakCallback error) = error"
| "nativeError (OnMove weakCallback error) = error"
| "nativeError (OnRemove weakCallback error) = error"
| "nativeError (OnStat weakCallback statResult error) = error"

fun requestClosure :: "FsRequest \<Rightarrow> Completion" where
  "requestClosure (FsRead fileName c) = c"
| "requestClosure (FsWrite fileName content c) = c"
| "requestClosure (FsMove fromName toName c) = c"
| "requestClosure (FsRemove fileName c) = c"
| "requestClosure (FsStat fileName c) = c"

fun closureToken :: "Completion \<Rightarrow> nat" where
  "closureToken (ReadCompletion weakCallback) = weakCallback"
| "closureToken (ReadFromFileCompletion weakCallback) = weakCallback"
| "closureToken (WriteCompletion weakCallback) = weakCallback"
| "closureToken (MoveCompletion weakCallback) = weakCallback"
| "closureToken (RemoveCompletion weakCallback) = weakCallback"
| "closureToken (StatCompletion weakCallback) = weakCallback"

section \<open>Dispatchers\<close>

text \<open>
  A dispatcher takes the converted argument list and the engine; it gives the exception
  it leaves with (if any) and the engine afterwards.
\<close>

type_synonym Dispatcher = "JsValueList \<Rightarrow> JsEngine \<Rightarrow> error option \<times> JsEngine"

definition ThrowExceptionInJS :: "string \<Rightarrow> JsEngine \<Rightarrow> error option \<times> JsEngine" where
  "ThrowExceptionInJS message jsEngine = (Some (JsException message), jsEngine)"

definition ReadCallback :: Dispatcher where
  "ReadCallback converted jsEngine =
     (if length converted \<noteq> 2
      then ThrowExceptionInJS ''_fileSystem.read requires 2 parameters'' jsEngine
      else if \<not> IsFunction (converted ! 1)
      then ThrowExceptionInJS ''Second argument to _fileSystem.read must be a function'' jsEngine
      else (case StoreJsValues [converted ! 1] jsEngine of
              (weakCallback, jsEngine1) \<Rightarrow>
                (case AsString (converted ! 0) of
                   Inl e \<Rightarrow> (Some e, jsEngine1)
                 | Inr fileName \<Rightarrow>
                     (None, WithFileSystem (FsRead fileName (ReadCompletion weakCallback)) jsEngine1))))"

definition ReadFromFileCallback :: Dispatcher where
  "ReadFromFileCallback converted jsEngine =
     (if length converted \<noteq> 3
      then ThrowExceptionInJS ''_fileSystem.readFromFile requires 3 parameters'' jsEngine
      else if \<not> IsFunction (converted ! 1)
      then ThrowExceptionInJS
             ''Second argument to _fileSystem.readFromFile must be a function (listener callback)'' jsEngine
      else if \<not> IsFunction (converted ! 2)
      then ThrowExceptionInJS
             ''Third argument to _fileSystem.readFromFile must be a function (done callback)'' jsEngine
      else (case StoreJsValues [converted ! 1, converted ! 2] jsEngine of
              (weakCallback, jsEngine1) \<Rightarrow>
                (case AsString (converted ! 0) of
                   Inl e \<Rightarrow> (Some e, jsEngine1)
                 | Inr fileName \<Rightarrow>
                     (None, WithFileSystem (FsRead fileName (ReadFromFileCompletion weakCallback)) jsEngine1))))"

definition WriteCallback :: Dispatcher where
  "WriteCallback converted jsEngine =
     (if length converted \<noteq> 3
      then ThrowExceptionInJS ''_fileSystem.write requires 3 parameters'' jsEngine
      else if \<not> IsFunction (converted ! 2)
      then ThrowExceptionInJS ''Third argument to _fileSystem.write must be a function'' jsEngine
      else (case StoreJsValues [converted ! 2] jsEngine of
              (weakCallback, jsEngine1) \<Rightarrow>
                (case AsStringBuffer (converted ! 1) of
                   Inl e \<Rightarrow> (Some e, jsEngine1)
                 | Inr content \<Rightarrow>
                     (case AsString (converted ! 0) of
                        Inl e \<Rightarrow> (Some e, jsEngine1)
                      | Inr fileName \<Rightarrow>
                          (None, WithFileSystem (FsWrite fileName content (WriteCompletion weakCallback))
                                   jsEngine1)))))"

definition MoveCallback :: Dispatcher where
  "MoveCallback converted jsEngine =
     (if length converted \<noteq> 3
      then ThrowExceptionInJS ''_fileSystem.move requires 3 parameters'' jsEngine
      else if \<not> IsFunction (converted ! 2)
      then ThrowExceptionInJS ''Third argument to _fileSystem.move must be a function'' jsEngine
      else (case StoreJsValues [converted ! 2] jsEngine of
              (weakCallback, jsEngine1) \<Rightarrow>
                (case AsString (converted ! 0) of
                   Inl e \<Rightarrow> (Some e, jsEngine1)
                 | Inr fromName \<Rightarrow>
                     (case AsString (converted ! 1) of
                        Inl e \<Rightarrow> (Some e, jsEngine1)
                      | Inr toName \<Rightarrow>
                          (None, WithFileSystem (FsMove fromName toName (MoveCompletion weakCallback))
                                   jsEngine1)))))"

definition RemoveCallback :: Dispatcher where
  "RemoveCallback converted jsEngine =
     (if length converted \<noteq> 2
      then ThrowExceptionInJS ''_fileSystem.remove requires 2 parameters'' jsEngine
      else if \<not> IsFunction (converted ! 1)
      then ThrowExceptionInJS ''Second argument to _fileSystem.remove must be a function'' jsEngine
      else (case StoreJsValues [converted ! 1] jsEngine of
              (weakCallback, jsEngine1) \<Rightarrow>
                (case AsString (converted ! 0) of
                   Inl e \<Rightarrow> (Some e, jsEngine1)
                 | Inr fileName \<Rightarrow>
                     (None, WithFileSystem (FsRemove fileName (RemoveCompletion weakCallback)) jsEngine1))))"

definition StatCallback :: Dispatcher where
  "StatCallback converted jsEngine =
     (if length converted \<noteq> 2
      then ThrowExceptionInJS ''_fileSystem.stat requires 2 parameters'' jsEngine
      else if \<not> IsFunction (converted ! 1)
      then ThrowExceptionInJS ''Second argument to _fileSystem.stat must be a function'' jsEngine
      else (case StoreJsValues [converted ! 1] jsEngine of
              (weakCallback, jsEngine1) \<Rightarrow>
                (case AsString (converted ! 0) of
                   Inl e \<Rightarrow> (Some e, jsEngine1)
                 | Inr fileName \<Rightarrow>
                     (None, WithFileSystem (FsStat fileName (StatCompletion weakCallback)) jsEngine1))))"

text \<open>\<open>FileSystemJsObject::Setup\<close>: the properties set on the namespace object.\<close>

definition Setup :: "(string \<times> Dispatcher) list" where
  "Setup =
     [(''read'', ReadCallback),
      (''readFromFile'', ReadFromFileCallback),
      (''write'', WriteCallback),
      (''move'', MoveCallback),
      (''remove'', RemoveCallback),
      (''stat'', StatCallback)]"

section \<open>The lines of a buffer, as the specification describes them\<close>

text \<open>
  The specification's \<open>BufferToLines\<close>: carriage return and line feed are terminators
  individually, a run of terminators is collapsed, and a line is the span up to the next
  terminator or the end of the buffer. It is written with the list library only, so that
  the loop of the source can be compared with it.
\<close>

definition NotEndOfLine :: "char \<Rightarrow> bool" where
  "NotEndOfLine c = (\<not> IsEndOfLine c)"

function BufferToLines :: "IOBuffer \<Rightarrow> IOBuffer list" where
  "BufferToLines cs =
     (case dropWhile IsEndOfLine cs of
        [] \<Rightarrow> []
      | c # rest \<Rightarrow>
          takeWhile NotEndOfLine (c # rest) # BufferToLines (dropWhile NotEndOfLine (c # rest)))"
  by pat_completeness auto
termination
proof (relation "measure length")
  show "wf (measure length)" by simp
next
  fix cs :: IOBuffer and c rest
  assume a: "dropWhile IsEndOfLine cs = c # rest"
  have "\<not> IsEndOfLine c"
    using a by (metis hd_dropWhile list.sel(1) list.distinct(1))
  then have "dropWhile NotEndOfLine (c # rest) = dropWhile NotEndOfLine rest"
    by (simp add: NotEndOfLine_def)
  moreover have "length (dropWhile NotEndOfLine rest) \<le> length rest"
    by (rule length_dropWhile_le)
  moreover have "length (c # rest) \<le> length cs"
    using a by (metis length_dropWhile_le)
  ultimately show "(dropWhile NotEndOfLine (c # rest), cs) \<in> measure length"
    by simp
qed

declare BufferToLines.simps [simp del]

section \<open>Example scripts, engines and buffers\<close>

text \<open>A script whose functions never throw; its state counts the calls made so far.\<close>

definition quietScript :: "nat Script" where
  "quietScript =
     \<lparr>invoke = (\<lambda>f ps n. (NoException, Suc n)),
      describe = (\<lambda>exception message. (CHR ''E'', ''rror at '' @ message))\<rparr>"

text \<open>A script in which function 1 throws when it is the second call made.\<close>

definition throwOnSecond :: "nat Script" where
  "throwOnSecond =
     \<lparr>invoke = (\<lambda>f ps n.
                  (if f = JsFunction 1 \<and> n = 1
                   then Caught (JsString ''boom'') ''script:1''
                   else NoException,
                   Suc n)),
      describe = (\<lambda>exception message. (CHR ''E'', ''rror at '' @ message))\<rparr>"

definition throwOnSecondContent :: IOBuffer where
  "throwOnSecondContent = [CHR ''x'', CHR 0x0A, CHR ''y'', CHR 0x0D, CHR 0x0A, CHR ''z'']"

definition freshEngine :: JsEngine where
  "freshEngine =
     \<lparr>jsWeakValuesLists = [], nextWeakValuesID = 0, globalIsObject = True, fileSystemRequests = []\<rparr>"

definition oneCallbackEngine :: JsEngine where
  "oneCallbackEngine =
     \<lparr>jsWeakValuesLists = [(0, [JsFunction 7])], nextWeakValuesID = 1, globalIsObject = True,
      fileSystemRequests = []\<rparr>"

definition twoCallbackEngine :: JsEngine where
  "twoCallbackEngine =
     \<lparr>jsWeakValuesLists = [(0, [JsFunction 1, JsFunction 2])], nextWeakValuesID = 1,
      globalIsObject = True, fileSystemRequests = []\<rparr>"

definition missingFile :: StatResult where
  "missingFile = \<lparr>exists = False, lastModified = 0\<rparr>"

section \<open>What a completion handler is expected to call\<close>

text \<open>
  The lines a per-line callback receives when it is offered a list of lines in order: each
  line once, up to and including the first line on which it throws. The script state is
  threaded through the calls.
\<close>

fun linesDelivered :: "'s Script \<Rightarrow> JsValue \<Rightarrow> IOBuffer list \<Rightarrow> 's \<Rightarrow> IOBuffer list" where
  "linesDelivered sc processFunc [] s = []"
| "linesDelivered sc processFunc (l # ls) s =
     (case invoke sc processFunc [JsString l] s of
        (NoException, s1) \<Rightarrow> l # linesDelivered sc processFunc ls s1
      | (Caught exception message, s1) \<Rightarrow> [l])"

text \<open>
  What the completion callback of a streaming read receives after that: nothing when no
  call threw, the description of the exception of the call that threw otherwise.
\<close>

fun doneArguments :: "'s Script \<Rightarrow> JsValue \<Rightarrow> IOBuffer list \<Rightarrow> 's \<Rightarrow> JsValueList" where
  "doneArguments sc processFunc [] s = []"
| "doneArguments sc processFunc (l # ls) s =
     (case invoke sc processFunc [JsString l] s of
        (NoException, s1) \<Rightarrow> doneArguments sc processFunc ls s1
      | (Caught exception message, s1) \<Rightarrow> [JsString (ExceptionToString sc exception message)])"

text \<open>
  The lines a run of a completion lambda offers to a per-line callback: those of the
  buffer for a streaming read without native error (the single empty line when the buffer
  has no line), none in every other case.
\<close>

fun linesOffered :: "HandlerCall \<Rightarrow> IOBuffer list" where
  "linesOffered (OnReadFromFile weakCallback content error) =
     (if error \<noteq> [] then []
      else if BufferToLines content = [] then [[]]
      else BufferToLines content)"
| "linesOffered h = []"

text \<open>
  The arguments of the one call of the completion callback: the result object for read
  and stat, the error string or nothing for write, move and remove, and for the streaming
  read the native error string, or else what \<open>doneArguments\<close> says.
\<close>

fun completionArguments :: "'s Script \<Rightarrow> JsValue \<Rightarrow> HandlerCall \<Rightarrow> 's \<Rightarrow> JsValueList" where
  "completionArguments sc processFunc (OnRead weakCallback content error) s =
     [ReadResultObject content error]"
| "completionArguments sc processFunc (OnReadFromFile weakCallback content error) s =
     (if error \<noteq> [] then [JsString error]
      else doneArguments sc processFunc (linesOffered (OnReadFromFile weakCallback content error)) s)"
| "completionArguments sc processFunc (OnWrite weakCallback error) s =
     (if error = [] then [] else [JsString error])"
| "completionArguments sc processFunc (OnMove weakCallback error) s =
     (if error = [] then [] else [JsString error])"
| "completionArguments sc processFunc (OnRemove weakCallback error) s =
     (if error = [] then [] else [JsString error])"
| "completionArguments sc processFunc (OnStat weakCallback statResult error) s =
     [StatResultObject statResult error]"

section \<open>The specification's table of operations\<close>

text \<open>
  Arity and required callback positions (counted from 0) of each operation, as the
  specification's table of dispatchers lists them; and what the specification calls a
  malformed argument list: a wrong count, or a value that is not a function at a required
  callback position.
\<close>

definition OperationTable :: "(string \<times> nat \<times> nat list) list" where
  "OperationTable =
     [(''read'', 2, [1]),
      (''readFromFile'', 3, [1, 2]),
      (''write'', 3, [2]),
      (''move'', 3, [2]),
      (''remove'', 2, [1]),
      (''stat'', 2, [1])]"

definition malformed :: "nat \<Rightarrow> nat list \<Rightarrow> JsValueList \<Rightarrow> bool" where
  "malformed arity positions args =
     (length args \<noteq> arity \<or> list_ex (\<lambda>i. \<not> IsFunction (args ! i)) positions)"

section \<open>Facts about the registry and the handlers\<close>

lemma TakeJsValues_stored:
  "map_of (jsWeakValuesLists jsEngine) token = Some values \<Longrightarrow>
   \<exists>jsEngine1. TakeJsValues token jsEngine = Some (values, jsEngine1) \<and>
               globalIsObject jsEngine1 = globalIsObject jsEngine"
  by (simp add: TakeJsValues_def)

lemma ReadDone_calls:
  assumes "map_of (jsWeakValuesLists jsEngine) token = Some (callback # rest)"
  shows "calls (ReadDone sc (Some jsEngine) token content error s) =
         [Invoked callback [ReadResultObject content error]]"
  using TakeJsValues_stored [OF assms]
  by (auto simp: ReadDone_def Call_def returned_def)

lemma StatDone_calls:
  assumes "map_of (jsWeakValuesLists jsEngine) token = Some (callback # rest)"
  shows "calls (StatDone sc (Some jsEngine) token statResult error s) =
         [Invoked callback [StatResultObject statResult error]]"
  using TakeJsValues_stored [OF assms]
  by (auto simp: StatDone_def Call_def returned_def)

lemma WriteDone_calls:
  assumes "map_of (jsWeakValuesLists jsEngine) token = Some (callback # rest)"
  shows "calls (WriteDone sc (Some jsEngine) token error s) = [Invoked callback (ErrorParams error)]"
  using TakeJsValues_stored [OF assms]
  by (auto simp: WriteDone_def Call_def returned_def)

lemma MoveDone_calls:
  assumes "map_of (jsWeakValuesLists jsEngine) token = Some (callback # rest)"
  shows "calls (MoveDone sc (Some jsEngine) token error s) = [Invoked callback (ErrorParams error)]"
  using TakeJsValues_stored [OF assms]
  by (auto simp: MoveDone_def Call_def returned_def)

lemma RemoveDone_calls:
  assumes "map_of (jsWeakValuesLists jsEngine) token = Some (callback # rest)"
  shows "calls (RemoveDone sc (Some jsEngine) token error s) = [Invoked callback (ErrorParams error)]"
  using TakeJsValues_stored [OF assms]
  by (auto simp: RemoveDone_def Call_def returned_def)

lemma ReadFromFileDone_error_calls:
  assumes "map_of (jsWeakValuesLists jsEngine) token = Some (processFunc # done # rest)"
      and "error \<noteq> []"
  shows "calls (ReadFromFileDone sc (Some jsEngine) token content error s) =
         [Invoked done [NewValue error]]"
  using TakeJsValues_stored [OF assms(1)] assms(2)
  by (auto simp: ReadFromFileDone_def Call_def returned_def)

lemma ReadFromFileDone_lines_calls:
  assumes "map_of (jsWeakValuesLists jsEngine) token = Some (processFunc # done # rest)"
      and "globalIsObject jsEngine"
  shows "calls (ReadFromFileDone sc (Some jsEngine) token content [] s) =
         fst (ProcessLines sc processFunc done (SkipEndOfLine content) s)"
  using TakeJsValues_stored [OF assms(1)] assms(2)
  by (auto simp: ReadFromFileDone_def returned_def split: prod.splits)

section \<open>Facts about the line loop\<close>

lemma SkipEndOfLine_dropWhile: "SkipEndOfLine cs = dropWhile IsEndOfLine cs"
  by (induction cs) auto

lemma AdvanceToEndOfLine_dropWhile: "AdvanceToEndOfLine cs = dropWhile NotEndOfLine cs"
  by (induction cs) (auto simp: NotEndOfLine_def)

lemma StringBufferRange_takeWhile:
  "StringBufferRange cs (AdvanceToEndOfLine cs) = takeWhile NotEndOfLine cs"
proof -
  have "length cs - length (dropWhile NotEndOfLine cs) = length (takeWhile NotEndOfLine cs)"
    by (metis add_diff_cancel_right' length_append takeWhile_dropWhile_id)
  moreover have "take (length (takeWhile NotEndOfLine cs)) cs = takeWhile NotEndOfLine cs"
    by (metis append_eq_conv_conj takeWhile_dropWhile_id)
  ultimately show ?thesis
    by (simp add: StringBufferRange_def AdvanceToEndOfLine_dropWhile)
qed

lemma SkipEndOfLine_terminators: "list_all IsEndOfLine content \<Longrightarrow> SkipEndOfLine content = []"
  by (induction content) auto

text \<open>
  The first line of \<open>BufferToLines\<close> is the first span the loop cuts out, and the
  remaining lines are those of the buffer from the end of that span.
\<close>

lemma BufferToLines_Cons:
  assumes "BufferToLines cs = l # ls"
  shows "SkipEndOfLine cs \<noteq> []"
    and "StringBufferRange (SkipEndOfLine cs) (AdvanceToEndOfLine (SkipEndOfLine cs)) = l"
    and "BufferToLines (AdvanceToEndOfLine (SkipEndOfLine cs)) = ls"
proof -
  obtain c rest where b: "dropWhile IsEndOfLine cs = c # rest"
    using assms by (cases "dropWhile IsEndOfLine cs") (simp_all add: BufferToLines.simps [of cs])
  have "BufferToLines cs =
        takeWhile NotEndOfLine (c # rest) # BufferToLines (dropWhile NotEndOfLine (c # rest))"
    by (subst BufferToLines.simps) (simp only: b list.case)
  with assms have l: "l = takeWhile NotEndOfLine (c # rest)"
    and ls: "ls = BufferToLines (dropWhile NotEndOfLine (c # rest))" by simp_all
  show "SkipEndOfLine cs \<noteq> []"
    by (simp add: SkipEndOfLine_dropWhile b)
  show "StringBufferRange (SkipEndOfLine cs) (AdvanceToEndOfLine (SkipEndOfLine cs)) = l"
    by (simp only: StringBufferRange_takeWhile SkipEndOfLine_dropWhile b l)
  show "BufferToLines (AdvanceToEndOfLine (SkipEndOfLine cs)) = ls"
    by (simp only: AdvanceToEndOfLine_dropWhile SkipEndOfLine_dropWhile b ls)
qed

lemma BufferToLines_Nil:
  assumes "BufferToLines cs = []"
  shows "SkipEndOfLine cs = []"
  using assms
  by (auto simp: BufferToLines.simps [of cs] SkipEndOfLine_dropWhile split: list.splits)

lemma ExceptionToString_nonempty: "ExceptionToString sc exception message \<noteq> []"
  by (simp add: ExceptionToString_def)

text \<open>One pass through the body of the loop, in each of its three ways out.\<close>

lemma ProcessLines_continue:
  assumes "fst (invoke sc processFunc [JsString (StringBufferRange b (AdvanceToEndOfLine b))] s) =
           NoException"
      and "SkipEndOfLine (AdvanceToEndOfLine b) \<noteq> []"
  shows "fst (ProcessLines sc processFunc done b s) =
         Invoked processFunc [JsString (StringBufferRange b (AdvanceToEndOfLine b))] #
         fst (ProcessLines sc processFunc done (SkipEndOfLine (AdvanceToEndOfLine b))
                (snd (invoke sc processFunc [JsString (StringBufferRange b (AdvanceToEndOfLine b))] s)))"
  using assms
  by (subst ProcessLines.simps) (auto simp: Let_def split: prod.splits TryCatch.splits)

lemma ProcessLines_finish:
  assumes "fst (invoke sc processFunc [JsString (StringBufferRange b (AdvanceToEndOfLine b))] s) =
           NoException"
      and "SkipEndOfLine (AdvanceToEndOfLine b) = []"
  shows "fst (ProcessLines sc processFunc done b s) =
         [Invoked processFunc [JsString (StringBufferRange b (AdvanceToEndOfLine b))], Invoked done []]"
  using assms
  by (subst ProcessLines.simps) (auto simp: Let_def Call_def split: prod.splits TryCatch.splits)

lemma ProcessLines_raise:
  assumes "fst (invoke sc processFunc [JsString (StringBufferRange b (AdvanceToEndOfLine b))] s) =
           Caught exception message"
  shows "fst (ProcessLines sc processFunc done b s) =
         [Invoked processFunc [JsString (StringBufferRange b (AdvanceToEndOfLine b))],
          Invoked done [NewValue (ExceptionToString sc exception message)]]"
  using assms
  by (subst ProcessLines.simps) (auto simp: Let_def Call_def split: prod.splits TryCatch.splits)

lemma BufferToLines_SkipEndOfLine: "BufferToLines (SkipEndOfLine cs) = BufferToLines cs"
  by (subst BufferToLines.simps, subst (2) BufferToLines.simps)
     (simp add: SkipEndOfLine_dropWhile dropWhile_idem)

lemma hd_SkipEndOfLine: "SkipEndOfLine cs \<noteq> [] \<Longrightarrow> \<not> IsEndOfLine (hd (SkipEndOfLine cs))"
  by (simp add: SkipEndOfLine_dropWhile hd_dropWhile)

lemma BufferToLines_line:
  assumes "b \<noteq> []" and "\<not> IsEndOfLine (hd b)"
  shows "BufferToLines b =
         StringBufferRange b (AdvanceToEndOfLine b) #
         BufferToLines (SkipEndOfLine (AdvanceToEndOfLine b))"
proof -
  obtain c rest where b: "b = c # rest" using assms(1) by (cases b) auto
  with assms(2) have "dropWhile IsEndOfLine b = c # rest" by simp
  then have "BufferToLines b =
             takeWhile NotEndOfLine (c # rest) # BufferToLines (dropWhile NotEndOfLine (c # rest))"
    by (subst BufferToLines.simps) (simp only: list.case)
  then have "BufferToLines b = takeWhile NotEndOfLine b # BufferToLines (dropWhile NotEndOfLine b)"
    by (simp only: b)
  moreover have "StringBufferRange b (AdvanceToEndOfLine b) = takeWhile NotEndOfLine b"
    by (rule StringBufferRange_takeWhile)
  moreover have "BufferToLines (SkipEndOfLine (AdvanceToEndOfLine b)) =
                 BufferToLines (dropWhile NotEndOfLine b)"
    by (simp only: BufferToLines_SkipEndOfLine AdvanceToEndOfLine_dropWhile)
  ultimately show ?thesis by simp
qed

text \<open>
  When the per-line callback never throws, the loop passes it the lines of
  \<open>BufferToLines\<close>, in order, and then calls the completion callback without argument.
\<close>

lemma ProcessLines_BufferToLines:
  assumes "\<forall>ps s. fst (invoke sc processFunc ps s) = NoException"
      and "b \<noteq> []" and "\<not> IsEndOfLine (hd b)"
  shows "fst (ProcessLines sc processFunc completion b s) =
         map (\<lambda>l. Invoked processFunc [JsString l]) (BufferToLines b) @ [Invoked completion []]"
  using assms
proof (induction sc processFunc completion b s rule: ProcessLines.induct)
  case (1 sc processFunc completion b s)
  let ?line = "StringBufferRange b (AdvanceToEndOfLine b)"
  let ?r = "invoke sc processFunc [JsString ?line] s"
  let ?next = "SkipEndOfLine (AdvanceToEndOfLine b)"
  have quiet: "fst ?r = NoException" using "1.prems"(1) by simp
  have lines: "BufferToLines b = ?line # BufferToLines ?next"
    using "1.prems"(2,3) by (rule BufferToLines_line)
  show ?case
  proof (cases "?next = []")
    case True
    then have "BufferToLines ?next = []"
      by (simp add: BufferToLines.simps [of "[]"])
    with ProcessLines_finish [OF quiet True] lines show ?thesis by simp
  next
    case False
    have pair: "(fst ?r, snd ?r) = ?r" by simp
    have "fst (ProcessLines sc processFunc completion ?next (snd ?r)) =
          map (\<lambda>l. Invoked processFunc [JsString l]) (BufferToLines ?next) @ [Invoked completion []]"
      using "1.IH" [OF refl refl pair quiet False "1.prems"(1) False hd_SkipEndOfLine [OF False]] .
    with ProcessLines_continue [OF quiet False] lines show ?thesis by simp
  qed
qed

lemma ReadFromFileDone_BufferToLines:
  assumes "map_of (jsWeakValuesLists jsEngine) token = Some (processFunc # completion # rest)"
      and "globalIsObject jsEngine"
      and "\<forall>ps s. fst (invoke sc processFunc ps s) = NoException"
  shows "calls (ReadFromFileDone sc (Some jsEngine) token content [] s) =
         map (\<lambda>l. Invoked processFunc [JsString l])
             (if BufferToLines content = [] then [[]] else BufferToLines content) @
         [Invoked completion []]"
proof (cases "SkipEndOfLine content = []")
  case True
  then have "dropWhile IsEndOfLine content = []"
    by (simp only: SkipEndOfLine_dropWhile)
  then have "BufferToLines content = []"
    by (subst BufferToLines.simps) (simp only: list.case)
  moreover have "fst (ProcessLines sc processFunc completion [] s) =
                 [Invoked processFunc [JsString []], Invoked completion []]"
    using ProcessLines_finish [of sc processFunc "[]" s completion] assms(3)
    by (simp add: StringBufferRange_def)
  ultimately show ?thesis
    by (simp add: ReadFromFileDone_lines_calls [OF assms(1,2)] True)
next
  case False
  then have "BufferToLines content \<noteq> []"
    using BufferToLines_Nil by blast
  moreover have "fst (ProcessLines sc processFunc completion (SkipEndOfLine content) s) =
                 map (\<lambda>l. Invoked processFunc [JsString l]) (BufferToLines (SkipEndOfLine content)) @
                 [Invoked completion []]"
    using ProcessLines_BufferToLines [OF assms(3) False hd_SkipEndOfLine [OF False]] .
  ultimately show ?thesis
    by (simp add: ReadFromFileDone_lines_calls [OF assms(1,2)] BufferToLines_SkipEndOfLine)
qed

lemma linesDelivered_quiet:
  assumes "\<forall>ps t. fst (invoke sc processFunc ps t) = NoException"
  shows "linesDelivered sc processFunc ls s = ls"
proof (induction ls arbitrary: s)
  case Nil
  show ?case by simp
next
  case (Cons l ls)
  obtain tc s1 where r: "invoke sc processFunc [JsString l] s = (tc, s1)"
    by (cases "invoke sc processFunc [JsString l] s")
  with assms have "tc = NoException" by (metis fst_conv)
  with r Cons.IH show ?case by simp
qed

lemma doneArguments_length: "length (doneArguments sc processFunc ls s) \<le> 1"
proof (induction ls arbitrary: s)
  case Nil
  show ?case by simp
next
  case (Cons l ls)
  obtain tc s1 where r: "invoke sc processFunc [JsString l] s = (tc, s1)"
    by (cases "invoke sc processFunc [JsString l] s")
  show ?case using r Cons.IH by (cases tc) simp_all
qed

text \<open>
  The loop, started at the beginning of a line, calls the per-line callback on the lines
  of \<open>BufferToLines\<close> as \<open>linesDelivered\<close> says, and then the completion callback once,
  with the arguments \<open>doneArguments\<close> gives.
\<close>

lemma ProcessLines_delivers:
  assumes "b \<noteq> []" and "\<not> IsEndOfLine (hd b)"
  shows "fst (ProcessLines sc processFunc completion b s) =
         map (\<lambda>l. Invoked processFunc [JsString l]) (linesDelivered sc processFunc (BufferToLines b) s) @
         [Invoked completion (doneArguments sc processFunc (BufferToLines b) s)]"
  using assms
proof (induction sc processFunc completion b s rule: ProcessLines.induct)
  case (1 sc processFunc completion b s)
  let ?line = "StringBufferRange b (AdvanceToEndOfLine b)"
  let ?next = "SkipEndOfLine (AdvanceToEndOfLine b)"
  obtain tc s1 where r: "invoke sc processFunc [JsString ?line] s = (tc, s1)"
    by (cases "invoke sc processFunc [JsString ?line] s")
  have lines: "BufferToLines b = ?line # BufferToLines ?next"
    using "1.prems" by (rule BufferToLines_line)
  show ?case
  proof (cases tc)
    case (Caught exception message)
    have "fst (invoke sc processFunc [JsString ?line] s) = Caught exception message"
      by (simp add: r Caught)
    from ProcessLines_raise [OF this] show ?thesis
      by (simp add: lines r Caught NewValue_def)
  next
    case NoException
    have quiet: "fst (invoke sc processFunc [JsString ?line] s) = NoException"
      by (simp add: r NoException)
    show ?thesis
    proof (cases "?next = []")
      case True
      then have "BufferToLines ?next = []"
        by (simp add: BufferToLines.simps [of "[]"])
      with ProcessLines_finish [OF quiet True] show ?thesis
        by (simp add: lines r NoException)
    next
      case False
      have "fst (ProcessLines sc processFunc completion ?next s1) =
            map (\<lambda>l. Invoked processFunc [JsString l])
                (linesDelivered sc processFunc (BufferToLines ?next) s1) @
            [Invoked completion (doneArguments sc processFunc (BufferToLines ?next) s1)]"
        using "1.IH" [OF refl refl r [symmetric] NoException False False hd_SkipEndOfLine [OF False]] .
      with ProcessLines_continue [OF quiet False] show ?thesis
        by (simp add: lines r NoException)
    qed
  qed
qed

lemma ProcessLines_empty_delivers:
  "fst (ProcessLines sc processFunc completion [] s) =
   map (\<lambda>l. Invoked processFunc [JsString l]) (linesDelivered sc processFunc [[]] s) @
   [Invoked completion (doneArguments sc processFunc [[]] s)]"
proof -
  obtain tc s1 where r: "invoke sc processFunc [JsString []] s = (tc, s1)"
    by (cases "invoke sc processFunc [JsString []] s")
  show ?thesis
  proof (cases tc)
    case NoException
    with r ProcessLines_finish [of sc processFunc "[]" s completion] show ?thesis
      by (simp add: StringBufferRange_def)
  next
    case (Caught exception message)
    with r ProcessLines_raise [of sc processFunc "[]" s exception message completion] show ?thesis
      by (simp add: StringBufferRange_def NewValue_def)
  qed
qed

lemma ReadFromFileDone_delivers:
  assumes "map_of (jsWeakValuesLists jsEngine) token = Some (processFunc # completion # rest)"
      and "globalIsObject jsEngine"
  shows "calls (ReadFromFileDone sc (Some jsEngine) token content [] s) =
         map (\<lambda>l. Invoked processFunc [JsString l])
             (linesDelivered sc processFunc
                (if BufferToLines content = [] then [[]] else BufferToLines content) s) @
         [Invoked completion
            (doneArguments sc processFunc
               (if BufferToLines content = [] then [[]] else BufferToLines content) s)]"
proof (cases "SkipEndOfLine content = []")
  case True
  then have "dropWhile IsEndOfLine content = []"
    by (simp only: SkipEndOfLine_dropWhile)
  then have "BufferToLines content = []"
    by (subst BufferToLines.simps) (simp only: list.case)
  then show ?thesis
    using ProcessLines_empty_delivers [of sc processFunc completion s]
    by (simp add: ReadFromFileDone_lines_calls [OF assms] True)
next
  case False
  then have "BufferToLines content \<noteq> []"
    using BufferToLines_Nil by blast
  then show ?thesis
    using ProcessLines_delivers [OF False hd_SkipEndOfLine [OF False], of sc processFunc completion s]
    by (simp add: ReadFromFileDone_lines_calls [OF assms] BufferToLines_SkipEndOfLine)
qed

section \<open>Facts about the result objects\<close>

lemma ReadResultObject_error: "HasProperty ''error'' (ReadResultObject content error) = (error \<noteq> [])"
  by (simp add: ReadResultObject_def HasProperty_def NewObject_def SetStringBufferProperty_def Let_def)

lemma StatResultObject_error: "HasProperty ''error'' (StatResultObject statResult error) = (error \<noteq> [])"
  by (simp add: StatResultObject_def HasProperty_def NewObject_def Let_def)

lemma ReadResultObject_content:
  "GetProperty ''content'' (ReadResultObject content error) = Some (JsString content)"
  by (simp add: ReadResultObject_def NewObject_def SetStringBufferProperty_def Let_def)

lemma StatResultObject_exists:
  "GetProperty ''exists'' (StatResultObject statResult error) = Some (JsBool (exists statResult))"
  by (simp add: StatResultObject_def NewObject_def Let_def)

lemma StatResultObject_lastModified:
  "GetProperty ''lastModified'' (StatResultObject statResult error) = Some (JsNumber (lastModified statResult))"
  by (simp add: StatResultObject_def NewObject_def Let_def)

section \<open>Facts about the dispatchers\<close>

lemma Setup_cases:
  assumes "(name, dispatcher) \<in> set Setup"
  obtains
      (onRead) "name = ''read''" "dispatcher = ReadCallback"
    | (onReadFromFile) "name = ''readFromFile''" "dispatcher = ReadFromFileCallback"
    | (onWrite) "name = ''write''" "dispatcher = WriteCallback"
    | (onMove) "name = ''move''" "dispatcher = MoveCallback"
    | (onRemove) "name = ''remove''" "dispatcher = RemoveCallback"
    | (onStat) "name = ''stat''" "dispatcher = StatCallback"
proof -
  from assms have
    "(name = ''read'' \<and> dispatcher = ReadCallback) \<or>
     (name = ''readFromFile'' \<and> dispatcher = ReadFromFileCallback) \<or>
     (name = ''write'' \<and> dispatcher = WriteCallback) \<or>
     (name = ''move'' \<and> dispatcher = MoveCallback) \<or>
     (name = ''remove'' \<and> dispatcher = RemoveCallback) \<or>
     (name = ''stat'' \<and> dispatcher = StatCallback)"
    by (simp add: Setup_def)
  then show thesis
    apply (elim disjE conjE)
         apply (rule that(1); assumption)
        apply (rule that(2); assumption)
       apply (rule that(3); assumption)
      apply (rule that(4); assumption)
     apply (rule that(5); assumption)
    apply (rule that(6); assumption)
    done
qed

lemma ReadCallback_malformed:
  "malformed 2 [1] args \<Longrightarrow> \<exists>message. ReadCallback args jsEngine = (Some (JsException message), jsEngine)"
  by (auto simp: malformed_def ReadCallback_def ThrowExceptionInJS_def)

lemma ReadFromFileCallback_malformed:
  "malformed 3 [1, 2] args \<Longrightarrow> \<exists>message. ReadFromFileCallback args jsEngine = (Some (JsException message), jsEngine)"
  by (auto simp: malformed_def ReadFromFileCallback_def ThrowExceptionInJS_def)

lemma WriteCallback_malformed:
  "malformed 3 [2] args \<Longrightarrow> \<exists>message. WriteCallback args jsEngine = (Some (JsException message), jsEngine)"
  by (auto simp: malformed_def WriteCallback_def ThrowExceptionInJS_def)

lemma MoveCallback_malformed:
  "malformed 3 [2] args \<Longrightarrow> \<exists>message. MoveCallback args jsEngine = (Some (JsException message), jsEngine)"
  by (auto simp: malformed_def MoveCallback_def ThrowExceptionInJS_def)

lemma RemoveCallback_malformed:
  "malformed 2 [1] args \<Longrightarrow> \<exists>message. RemoveCallback args jsEngine = (Some (JsException message), jsEngine)"
  by (auto simp: malformed_def RemoveCallback_def ThrowExceptionInJS_def)

lemma StatCallback_malformed:
  "malformed 2 [1] args \<Longrightarrow> \<exists>message. StatCallback args jsEngine = (Some (JsException message), jsEngine)"
  by (auto simp: malformed_def StatCallback_def ThrowExceptionInJS_def)

lemma ReadCallback_accepted:
  assumes "ReadCallback args jsEngine = (None, jsEngine1)"
  shows "length args = 2
       \<and> (\<exists>fileName. fileSystemRequests jsEngine1 =
             fileSystemRequests jsEngine @ [FsRead fileName (ReadCompletion (nextWeakValuesID jsEngine))])
       \<and> map_of (jsWeakValuesLists jsEngine1) (nextWeakValuesID jsEngine) = Some [args ! 1]"
  using assms
  by (auto simp: ReadCallback_def ThrowExceptionInJS_def StoreJsValues_def WithFileSystem_def
           split: if_splits sum.splits)

lemma ReadFromFileCallback_accepted:
  assumes "ReadFromFileCallback args jsEngine = (None, jsEngine1)"
  shows "length args = 3
       \<and> (\<exists>fileName. fileSystemRequests jsEngine1 =
             fileSystemRequests jsEngine @ [FsRead fileName (ReadFromFileCompletion (nextWeakValuesID jsEngine))])
       \<and> map_of (jsWeakValuesLists jsEngine1) (nextWeakValuesID jsEngine) = Some [args ! 1, args ! 2]"
  using assms
  by (auto simp: ReadFromFileCallback_def ThrowExceptionInJS_def StoreJsValues_def WithFileSystem_def
           split: if_splits sum.splits)

lemma WriteCallback_accepted:
  assumes "WriteCallback args jsEngine = (None, jsEngine1)"
  shows "length args = 3
       \<and> (\<exists>fileName content. fileSystemRequests jsEngine1 =
             fileSystemRequests jsEngine @ [FsWrite fileName content (WriteCompletion (nextWeakValuesID jsEngine))])
       \<and> map_of (jsWeakValuesLists jsEngine1) (nextWeakValuesID jsEngine) = Some [args ! 2]"
  using assms
  by (auto simp: WriteCallback_def ThrowExceptionInJS_def StoreJsValues_def WithFileSystem_def
           split: if_splits sum.splits)

lemma MoveCallback_accepted:
  assumes "MoveCallback args jsEngine = (None, jsEngine1)"
  shows "length args = 3
       \<and> (\<exists>fromName toName. fileSystemRequests jsEngine1 =
             fileSystemRequests jsEngine @ [FsMove fromName toName (MoveCompletion (nextWeakValuesID jsEngine))])
       \<and> map_of (jsWeakValuesLists jsEngine1) (nextWeakValuesID jsEngine) = Some [args ! 2]"
  using assms
  by (auto simp: MoveCallback_def ThrowExceptionInJS_def StoreJsValues_def WithFileSystem_def
           split: if_splits sum.splits)

lemma RemoveCallback_accepted:
  assumes "RemoveCallback args jsEngine = (None, jsEngine1)"
  shows "length args = 2
       \<and> (\<exists>fileName. fileSystemRequests jsEngine1 =
             fileSystemRequests jsEngine @ [FsRemove fileName (RemoveCompletion (nextWeakValuesID jsEngine))])
       \<and> map_of (jsWeakValuesLists jsEngine1) (nextWeakValuesID jsEngine) = Some [args ! 1]"
  using assms
  by (auto simp: RemoveCallback_def ThrowExceptionInJS_def StoreJsValues_def WithFileSystem_def
           split: if_splits sum.splits)

lemma StatCallback_accepted:
  assumes "StatCallback args jsEngine = (None, jsEngine1)"
  shows "length args = 2
       \<and> (\<exists>fileName. fileSystemRequests jsEngine1 =
             fileSystemRequests jsEngine @ [FsStat fileName (StatCompletion (nextWeakValuesID jsEngine))])
       \<and> map_of (jsWeakValuesLists jsEngine1) (nextWeakValuesID jsEngine) = Some [args ! 1]"
  using assms
  by (auto simp: StatCallback_def ThrowExceptionInJS_def StoreJsValues_def WithFileSystem_def
           split: if_splits sum.splits)

lemma last_of_two:
  assumes "length args = 2"
  shows "last args = args ! 1"
proof -
  have "args \<noteq> []" using assms by auto
  then have "last args = args ! (length args - 1)" by (rule last_conv_nth)
  then show ?thesis by (simp add: assms)
qed

lemma last_of_three:
  assumes "length args = 3"
  shows "last args = args ! 2"
proof -
  have "args \<noteq> []" using assms by auto
  then have "last args = args ! (length args - 1)" by (rule last_conv_nth)
  then show ?thesis by (simp add: assms)
qed

section \<open>Streaming read\<close>

text \<open>
  C2, as stated, fails: on an empty buffer, and on a buffer of terminators only, the body
  of the \<open>do ... while\<close> loop runs once, so the per-line callback is invoked once with the
  empty line before the completion callback is invoked.
\<close>

theorem streaming_read_empty_counterexample:
  "calls (ReadFromFileDone quietScript (Some twoCallbackEngine) 0 [] [] 0) =
   [Invoked (JsFunction 1) [JsString []], Invoked (JsFunction 2) []]
 \<and> calls (ReadFromFileDone quietScript (Some twoCallbackEngine) 0 [CHR 0x0D, CHR 0x0A] [] 0) =
   [Invoked (JsFunction 1) [JsString []], Invoked (JsFunction 2) []]"
  by (simp add: ReadFromFileDone_def TakeJsValues_def twoCallbackEngine_def quietScript_def
                ProcessLines.simps IsEndOfLine_def StringBufferRange_def Call_def returned_def)

text \<open>
  C2 (amended): for the streaming read, when the native read reports no error and the
  fetched buffer is empty or consists solely of line terminators (CR/LF), the per-line
  callback is invoked exactly once, with the empty line, and then the completion callback
  is invoked once: with no argument when that per-line call returned, and with the
  description of the exception when it threw.
\<close>

theorem streaming_read_only_terminators:
  assumes "map_of (jsWeakValuesLists jsEngine) token = Some [processFunc, done]"
      and "globalIsObject jsEngine"
      and "list_all IsEndOfLine content"
  shows "calls (ReadFromFileDone sc (Some jsEngine) token content [] s) =
         [Invoked processFunc [JsString []],
          Invoked done (case fst (invoke sc processFunc [JsString []] s) of
                          NoException \<Rightarrow> []
                        | Caught exception message \<Rightarrow>
                            [JsString (ExceptionToString sc exception message)])]"
proof (cases "fst (invoke sc processFunc [JsString []] s)")
  case NoException
  then show ?thesis
    using ProcessLines_finish [of sc processFunc "[]" s "done"]
    by (simp add: ReadFromFileDone_lines_calls [OF assms(1,2)]
                  SkipEndOfLine_terminators [OF assms(3)] StringBufferRange_def)
next
  case (Caught exception message)
  then show ?thesis
    using ProcessLines_raise [of sc processFunc "[]" s exception message "done"]
    by (simp add: ReadFromFileDone_lines_calls [OF assms(1,2)]
                  SkipEndOfLine_terminators [OF assms(3)] StringBufferRange_def NewValue_def)
qed

theorem streaming_read_only_terminators_witness:
  "calls (ReadFromFileDone quietScript (Some twoCallbackEngine) 0 [CHR 0x0A, CHR 0x0D, CHR 0x0A] [] 0) =
   [Invoked (JsFunction 1) [JsString []], Invoked (JsFunction 2) []]"
proof -
  have stored: "map_of (jsWeakValuesLists twoCallbackEngine) 0 = Some [JsFunction 1, JsFunction 2]"
    by (simp add: twoCallbackEngine_def)
  have global: "globalIsObject twoCallbackEngine"
    by (simp add: twoCallbackEngine_def)
  have terminators: "list_all IsEndOfLine [CHR 0x0A, CHR 0x0D, CHR 0x0A]"
    by (simp add: IsEndOfLine_def)
  show ?thesis
    using streaming_read_only_terminators [OF stored global terminators, of quietScript 0]
    by (simp add: quietScript_def)
qed

text \<open>
  C3: for the streaming read over the buffer \<open>a LF b LF LF c\<close> (the six bytes of the
  literal, with no native error and a per-line callback that does not throw), the
  per-line callback is invoked exactly three times, in order with the line texts
  \<open>a\<close>, \<open>b\<close>, \<open>c\<close> (the empty line of the terminator run is not emitted), after which the
  completion callback is invoked once with no argument.
\<close>

theorem streaming_read_a_b_c:
  assumes "map_of (jsWeakValuesLists jsEngine) token = Some [processFunc, done]"
      and "globalIsObject jsEngine"
      and "\<forall>ps s. fst (invoke sc processFunc ps s) = NoException"
  shows "calls (ReadFromFileDone sc (Some jsEngine) token
                  [CHR ''a'', CHR 0x0A, CHR ''b'', CHR 0x0A, CHR 0x0A, CHR ''c''] [] s) =
         [Invoked processFunc [JsString ''a''],
          Invoked processFunc [JsString ''b''],
          Invoked processFunc [JsString ''c''],
          Invoked done []]"
  using assms(3)
  by (simp add: ReadFromFileDone_lines_calls [OF assms(1,2)] ProcessLines_continue
                ProcessLines_finish IsEndOfLine_def StringBufferRange_def)

theorem streaming_read_a_b_c_witness:
  "calls (ReadFromFileDone quietScript (Some twoCallbackEngine) 0
            [CHR ''a'', CHR 0x0A, CHR ''b'', CHR 0x0A, CHR 0x0A, CHR ''c''] [] 0) =
   [Invoked (JsFunction 1) [JsString ''a''],
    Invoked (JsFunction 1) [JsString ''b''],
    Invoked (JsFunction 1) [JsString ''c''],
    Invoked (JsFunction 2) []]"
proof -
  have stored: "map_of (jsWeakValuesLists twoCallbackEngine) 0 = Some [JsFunction 1, JsFunction 2]"
    by (simp add: twoCallbackEngine_def)
  have global: "globalIsObject twoCallbackEngine"
    by (simp add: twoCallbackEngine_def)
  have quiet: "\<forall>ps s. fst (invoke quietScript (JsFunction 1) ps s) = NoException"
    by (simp add: quietScript_def)
  show ?thesis
    by (rule streaming_read_a_b_c [OF stored global quiet])
qed

text \<open>
  C4: for the streaming read, if the per-line callback returns on the first line and
  throws on the second line of a buffer with at least three lines, then the per-line
  callback is invoked exactly twice (on the first and the second line), the completion
  callback is invoked exactly once, with the description of the exception as its only
  argument, a string that is not empty, and there is no third per-line invocation.
\<close>

theorem streaming_read_fault_on_second_line:
  assumes "map_of (jsWeakValuesLists jsEngine) token = Some [processFunc, done]"
      and "globalIsObject jsEngine"
      and "BufferToLines content = l1 # l2 # l3 # others"
      and "invoke sc processFunc [JsString l1] s = (NoException, s1)"
      and "invoke sc processFunc [JsString l2] s1 = (Caught exception message, s2)"
  shows "\<exists>description. description \<noteq> [] \<and>
           description = ExceptionToString sc exception message \<and>
           calls (ReadFromFileDone sc (Some jsEngine) token content [] s) =
           [Invoked processFunc [JsString l1],
            Invoked processFunc [JsString l2],
            Invoked done [JsString description]]"
proof -
  let ?b = "SkipEndOfLine content"
  let ?b2 = "SkipEndOfLine (AdvanceToEndOfLine ?b)"
  note first = BufferToLines_Cons [OF assms(3)]
  note second = BufferToLines_Cons [OF first(3)]
  have line1: "StringBufferRange ?b (AdvanceToEndOfLine ?b) = l1"
    by (rule first(2))
  have line2: "StringBufferRange ?b2 (AdvanceToEndOfLine ?b2) = l2"
    by (rule second(2))
  have another: "?b2 \<noteq> []"
    by (rule second(1))
  have "fst (ProcessLines sc processFunc done ?b s) =
        Invoked processFunc [JsString l1] # fst (ProcessLines sc processFunc done ?b2 s1)"
    using ProcessLines_continue [of sc processFunc ?b s "done"] another assms(4)
    by (simp add: line1)
  moreover have "fst (ProcessLines sc processFunc done ?b2 s1) =
        [Invoked processFunc [JsString l2],
         Invoked done [NewValue (ExceptionToString sc exception message)]]"
    using ProcessLines_raise [of sc processFunc ?b2 s1 exception message "done"] assms(5)
    by (simp add: line2)
  ultimately have "calls (ReadFromFileDone sc (Some jsEngine) token content [] s) =
        [Invoked processFunc [JsString l1], Invoked processFunc [JsString l2],
         Invoked done [JsString (ExceptionToString sc exception message)]]"
    by (simp add: ReadFromFileDone_lines_calls [OF assms(1,2)] NewValue_def)
  moreover have "ExceptionToString sc exception message \<noteq> []"
    by (rule ExceptionToString_nonempty)
  ultimately show ?thesis by blast
qed

theorem streaming_read_fault_on_second_line_witness:
  "\<exists>description. description \<noteq> [] \<and>
     description = ExceptionToString throwOnSecond (JsString ''boom'') ''script:1'' \<and>
     calls (ReadFromFileDone throwOnSecond (Some twoCallbackEngine) 0 throwOnSecondContent [] 0) =
     [Invoked (JsFunction 1) [JsString ''x''],
      Invoked (JsFunction 1) [JsString ''y''],
      Invoked (JsFunction 2) [JsString description]]"
proof -
  have stored: "map_of (jsWeakValuesLists twoCallbackEngine) 0 = Some [JsFunction 1, JsFunction 2]"
    by (simp add: twoCallbackEngine_def)
  have global: "globalIsObject twoCallbackEngine"
    by (simp add: twoCallbackEngine_def)
  have three: "BufferToLines throwOnSecondContent = ''x'' # ''y'' # ''z'' # []"
    by (simp add: throwOnSecondContent_def BufferToLines.simps IsEndOfLine_def NotEndOfLine_def)
  have ok: "invoke throwOnSecond (JsFunction 1) [JsString ''x''] 0 = (NoException, 1)"
    by (simp add: throwOnSecond_def)
  have thrown: "invoke throwOnSecond (JsFunction 1) [JsString ''y''] 1 =
                (Caught (JsString ''boom'') ''script:1'', 2)"
    by (simp add: throwOnSecond_def)
  show ?thesis
    by (rule streaming_read_fault_on_second_line [OF stored global three ok thrown])
qed

text \<open>
  C7: for the streaming read, if the native read reports an error string that is not
  empty, the completion callback is invoked exactly once with that error string as its
  only argument, and the per-line callback is not invoked.
\<close>

theorem streaming_read_native_error:
  assumes "map_of (jsWeakValuesLists jsEngine) token = Some [processFunc, done]"
      and "error \<noteq> []"
  shows "calls (ReadFromFileDone sc (Some jsEngine) token content error s) =
         [Invoked done [JsString error]]"
  using ReadFromFileDone_error_calls [OF assms] by (simp add: NewValue_def)

theorem streaming_read_native_error_witness:
  "calls (ReadFromFileDone quietScript (Some twoCallbackEngine) 0 ''partial'' ''no such file'' 0) =
   [Invoked (JsFunction 2) [JsString ''no such file'']]"
proof -
  have stored: "map_of (jsWeakValuesLists twoCallbackEngine) 0 = Some [JsFunction 1, JsFunction 2]"
    by (simp add: twoCallbackEngine_def)
  have failed: "''no such file'' \<noteq> []"
    by simp
  show ?thesis
    by (rule streaming_read_native_error [OF stored failed])
qed

section \<open>Fire-and-forget operations\<close>

text \<open>
  C8: for write, move and remove, the stored callback is invoked with no argument when
  the native error string is empty, and with exactly one argument, the error string, when
  it is not empty.
\<close>

theorem fire_and_forget_params:
  assumes "map_of (jsWeakValuesLists jsEngine) token = Some (callback # rest)"
  shows "calls (WriteDone sc (Some jsEngine) token error s) =
           [Invoked callback (if error = [] then [] else [JsString error])]
       \<and> calls (MoveDone sc (Some jsEngine) token error s) =
           [Invoked callback (if error = [] then [] else [JsString error])]
       \<and> calls (RemoveDone sc (Some jsEngine) token error s) =
           [Invoked callback (if error = [] then [] else [JsString error])]"
  using assms
  by (simp add: WriteDone_calls MoveDone_calls RemoveDone_calls ErrorParams_def NewValue_def)

theorem fire_and_forget_params_witness:
  "calls (WriteDone quietScript (Some oneCallbackEngine) 0 [] 0) = [Invoked (JsFunction 7) []]
 \<and> calls (MoveDone quietScript (Some oneCallbackEngine) 0 ''disk full'' 0) =
     [Invoked (JsFunction 7) [JsString ''disk full'']]
 \<and> calls (RemoveDone quietScript (Some oneCallbackEngine) 0 [] 0) = [Invoked (JsFunction 7) []]"
proof -
  have stored: "map_of (jsWeakValuesLists oneCallbackEngine) 0 = Some (JsFunction 7 # [])"
    by (simp add: oneCallbackEngine_def)
  show ?thesis
    using fire_and_forget_params [OF stored, of quietScript "[]" 0]
          fire_and_forget_params [OF stored, of quietScript "''disk full''" 0]
    by simp
qed

section \<open>Result-bearing operations\<close>

text \<open>
  C9: for read and stat, the result object passed to the callback has an \<open>error\<close>
  property if and only if the native operation reported an error string that is not
  empty; in particular, a stat whose native completion reports \<open>exists = false\<close> with an
  empty error string gives a result with \<open>exists = false\<close> and no \<open>error\<close> property.
\<close>

theorem error_property_iff_native_error:
  assumes "map_of (jsWeakValuesLists jsEngine) token = Some (callback # rest)"
  shows "(\<exists>result. calls (ReadDone sc (Some jsEngine) token content error s) = [Invoked callback [result]]
            \<and> HasProperty ''error'' result = (error \<noteq> []))
       \<and> (\<exists>result. calls (StatDone sc (Some jsEngine) token statResult error s) = [Invoked callback [result]]
            \<and> HasProperty ''error'' result = (error \<noteq> []))
       \<and> (\<exists>result. calls (StatDone sc (Some jsEngine) token \<lparr>exists = False, lastModified = t\<rparr> [] s) =
              [Invoked callback [result]]
            \<and> GetProperty ''exists'' result = Some (JsBool False)
            \<and> \<not> HasProperty ''error'' result)"
  by (simp add: ReadDone_calls [OF assms] StatDone_calls [OF assms] ReadResultObject_error
                StatResultObject_error StatResultObject_exists)

theorem error_property_iff_native_error_witness:
  "(\<exists>result. calls (ReadDone quietScript (Some oneCallbackEngine) 0 ''data'' ''read failed'' 0) =
       [Invoked (JsFunction 7) [result]] \<and> HasProperty ''error'' result = (''read failed'' \<noteq> []))
 \<and> (\<exists>result. calls (StatDone quietScript (Some oneCallbackEngine) 0 missingFile [] 0) =
       [Invoked (JsFunction 7) [result]] \<and> HasProperty ''error'' result = ([] \<noteq> ([] :: string)))
 \<and> (\<exists>result. calls (StatDone quietScript (Some oneCallbackEngine) 0 \<lparr>exists = False, lastModified = 0\<rparr> [] 0) =
       [Invoked (JsFunction 7) [result]]
       \<and> GetProperty ''exists'' result = Some (JsBool False) \<and> \<not> HasProperty ''error'' result)"
proof -
  have stored: "map_of (jsWeakValuesLists oneCallbackEngine) 0 = Some (JsFunction 7 # [])"
    by (simp add: oneCallbackEngine_def)
  show ?thesis
    using error_property_iff_native_error [OF stored, of quietScript "''data''" "''read failed''" 0 missingFile 0]
          error_property_iff_native_error [OF stored, of quietScript "''data''" "[]" 0 missingFile 0]
    by blast
qed

text \<open>
  C10: whenever the read or stat completion handler runs with the engine alive, the
  payload properties are on the result object, also when the native operation reported an
  error: read's result has \<open>content\<close> (the buffer as delivered), and stat's result has
  \<open>exists\<close> and \<open>lastModified\<close>, copied from the native stat result.
\<close>

theorem payload_properties_always_present:
  assumes "map_of (jsWeakValuesLists jsEngine) token = Some (callback # rest)"
  shows "(\<exists>result. calls (ReadDone sc (Some jsEngine) token content error s) = [Invoked callback [result]]
            \<and> GetProperty ''content'' result = Some (JsString content))
       \<and> (\<exists>result. calls (StatDone sc (Some jsEngine) token statResult error s) = [Invoked callback [result]]
            \<and> GetProperty ''exists'' result = Some (JsBool (exists statResult))
            \<and> GetProperty ''lastModified'' result = Some (JsNumber (lastModified statResult)))"
  by (simp add: ReadDone_calls [OF assms] StatDone_calls [OF assms] ReadResultObject_content
                StatResultObject_exists StatResultObject_lastModified)

theorem payload_properties_always_present_witness:
  "(\<exists>result. calls (ReadDone quietScript (Some oneCallbackEngine) 0 [] ''read failed'' 0) =
       [Invoked (JsFunction 7) [result]] \<and> GetProperty ''content'' result = Some (JsString []))
 \<and> (\<exists>result. calls (StatDone quietScript (Some oneCallbackEngine) 0 missingFile ''stat failed'' 0) =
       [Invoked (JsFunction 7) [result]]
       \<and> GetProperty ''exists'' result = Some (JsBool (exists missingFile))
       \<and> GetProperty ''lastModified'' result = Some (JsNumber (lastModified missingFile)))"
proof -
  have stored: "map_of (jsWeakValuesLists oneCallbackEngine) 0 = Some (JsFunction 7 # [])"
    by (simp add: oneCallbackEngine_def)
  show ?thesis
    using payload_properties_always_present [OF stored, of quietScript "[]" "''read failed''" 0]
          payload_properties_always_present [OF stored, of quietScript "[]" "''stat failed''" 0 missingFile]
    by blast
qed

section \<open>Engine destroyed before completion\<close>

text \<open>
  C5: for every operation, if the weak engine reference fails to resolve when the
  completion handler runs, the handler returns at once: it invokes no callback, leaves
  the script state as it was, and does not fault.
\<close>

theorem dead_engine_no_effect:
  "runHandler sc None h s = \<lparr>calls = [], fault = None, engineAfter = None, scriptAfter = s\<rparr>"
  by (cases h) (simp_all add: ReadDone_def ReadFromFileDone_def WriteDone_def MoveDone_def
                              RemoveDone_def StatDone_def engineGone_def)

theorem dead_engine_no_effect_witness:
  "runHandler quietScript None (OnReadFromFile 0 ''a'' []) 0 =
     \<lparr>calls = [], fault = None, engineAfter = None, scriptAfter = 0\<rparr>
 \<and> runHandler quietScript None (OnStat 0 missingFile ''gone'') 5 =
     \<lparr>calls = [], fault = None, engineAfter = None, scriptAfter = 5\<rparr>"
  using dead_engine_no_effect [of quietScript "OnReadFromFile 0 ''a'' []" 0]
        dead_engine_no_effect [of quietScript "OnStat 0 missingFile ''gone''" 5]
  by simp

section \<open>Malformed argument lists\<close>

text \<open>
  C6: for every operation that \<open>Setup\<close> exposes, a malformed argument list (a count that
  differs from the operation's arity, or a value that is not a function at a required
  callback position) makes the dispatcher throw a script-level exception, and the engine
  is left as it was: no callback handle is stored in the registry and no request is
  handed to the filesystem service.
\<close>

theorem malformed_arguments_rejected:
  assumes "(name, dispatcher) \<in> set Setup"
      and "(name, arity, positions) \<in> set OperationTable"
      and "malformed arity positions args"
  shows "\<exists>message. dispatcher args jsEngine = (Some (JsException message), jsEngine)"
  using assms
  by (auto simp: Setup_def OperationTable_def
           intro: ReadCallback_malformed ReadFromFileCallback_malformed WriteCallback_malformed
                  MoveCallback_malformed RemoveCallback_malformed StatCallback_malformed)

theorem malformed_arguments_rejected_witness:
  "(\<exists>message. ReadFromFileCallback [JsString ''patterns.ini'', JsFunction 1, JsUndefined] freshEngine =
       (Some (JsException message), freshEngine))
 \<and> (\<exists>message. StatCallback [JsString ''patterns.ini''] freshEngine =
       (Some (JsException message), freshEngine))"
proof -
  have s1: "(''readFromFile'', ReadFromFileCallback) \<in> set Setup"
    by (simp add: Setup_def)
  have t1: "(''readFromFile'', 3, [1, 2]) \<in> set OperationTable"
    by (simp add: OperationTable_def)
  have m1: "malformed 3 [1, 2] [JsString ''patterns.ini'', JsFunction 1, JsUndefined]"
    by (simp add: malformed_def)
  have s2: "(''stat'', StatCallback) \<in> set Setup"
    by (simp add: Setup_def)
  have t2: "(''stat'', 2, [1]) \<in> set OperationTable"
    by (simp add: OperationTable_def)
  have m2: "malformed 2 [1] [JsString ''patterns.ini'']"
    by (simp add: malformed_def)
  show ?thesis
    using malformed_arguments_rejected [OF s1 t1 m1, of freshEngine]
          malformed_arguments_rejected [OF s2 t2 m2, of freshEngine]
    by simp
qed

section \<open>How often the callbacks are invoked\<close>

text \<open>
  C1, as stated, fails: a streaming read is accepted with a well-formed argument list,
  and its completion handler, run with the engine alive on a buffer of two lines, invokes
  the per-line callback handle twice.
\<close>

theorem per_line_callback_invoked_twice_counterexample:
  "fst (ReadFromFileCallback [JsString ''patterns.ini'', JsFunction 1, JsFunction 2] freshEngine) = None
 \<and> count_list
      (map callee
        (calls (ReadFromFileDone quietScript
                  (Some (snd (ReadFromFileCallback [JsString ''patterns.ini'', JsFunction 1, JsFunction 2]
                                freshEngine)))
                  0 [CHR ''a'', CHR 0x0A, CHR ''b''] [] 0)))
      (JsFunction 1) = 2"
  by (simp add: ReadFromFileCallback_def StoreJsValues_def WithFileSystem_def freshEngine_def
                ReadFromFileDone_def TakeJsValues_def quietScript_def
                ProcessLines.simps IsEndOfLine_def StringBufferRange_def Call_def returned_def)

text \<open>
  C1 (amended): for every operation that \<open>Setup\<close> exposes, when the dispatcher accepts the
  argument list and the completion handler of the request it submitted runs with the
  engine alive (the callback group still stored, the global an object), the handler's
  invocations are exactly these, in order: for readFromFile without native error, one
  invocation of the per-line callback for each line of the buffer (the single empty line
  when the buffer has none), up to and including the first line on which it throws, so
  once per line when it never throws; for the five other operations, and for readFromFile
  with a native error, no such invocation; and then exactly one invocation of the
  completion callback, the last argument, with at most one argument: the result object
  (read, stat), the error string or nothing (write, move, remove), and for readFromFile
  the native error string, or the description of the exception thrown, or nothing.
\<close>

theorem completion_callback_exactly_once:
  assumes "(name, dispatcher) \<in> set Setup"
      and "dispatcher args jsEngine = (None, jsEngine1)"
      and "handlerClosure h = requestClosure (last (fileSystemRequests jsEngine1))"
      and "map_of (jsWeakValuesLists jsEngine2) (closureToken (handlerClosure h)) =
           map_of (jsWeakValuesLists jsEngine1) (closureToken (handlerClosure h))"
      and "globalIsObject jsEngine2"
  shows "calls (runHandler sc (Some jsEngine2) h s) =
           map (\<lambda>l. Invoked (args ! 1) [JsString l])
               (linesDelivered sc (args ! 1) (linesOffered h) s) @
           [Invoked (last args) (completionArguments sc (args ! 1) h s)]
       \<and> length (completionArguments sc (args ! 1) h s) \<le> 1
       \<and> (name \<noteq> ''readFromFile'' \<longrightarrow> linesOffered h = [])
       \<and> ((\<forall>ps t. fst (invoke sc (args ! 1) ps t) = NoException) \<longrightarrow>
            linesDelivered sc (args ! 1) (linesOffered h) s = linesOffered h)"
proof -
  let ?token = "nextWeakValuesID jsEngine"
  have whole: "(\<forall>ps t. fst (invoke sc (args ! 1) ps t) = NoException) \<longrightarrow>
               linesDelivered sc (args ! 1) (linesOffered h) s = linesOffered h"
    by (simp add: linesDelivered_quiet)
  have "calls (runHandler sc (Some jsEngine2) h s) =
           map (\<lambda>l. Invoked (args ! 1) [JsString l])
               (linesDelivered sc (args ! 1) (linesOffered h) s) @
           [Invoked (last args) (completionArguments sc (args ! 1) h s)]
       \<and> length (completionArguments sc (args ! 1) h s) \<le> 1
       \<and> (name \<noteq> ''readFromFile'' \<longrightarrow> linesOffered h = [])"
    using assms(1)
  proof (cases rule: Setup_cases)
    case onRead
    note acc = ReadCallback_accepted [OF assms(2) [unfolded onRead(2)]]
    from acc assms(3) obtain content error where h: "h = OnRead ?token content error"
      by (cases h) auto
    from acc assms(4) have "map_of (jsWeakValuesLists jsEngine2) ?token = Some (args ! 1 # [])"
      by (simp add: h)
    from ReadDone_calls [OF this] acc show ?thesis
      by (simp add: h last_of_two)
  next
    case onStat
    note acc = StatCallback_accepted [OF assms(2) [unfolded onStat(2)]]
    from acc assms(3) obtain statResult error where h: "h = OnStat ?token statResult error"
      by (cases h) auto
    from acc assms(4) have "map_of (jsWeakValuesLists jsEngine2) ?token = Some (args ! 1 # [])"
      by (simp add: h)
    from StatDone_calls [OF this] acc show ?thesis
      by (simp add: h last_of_two)
  next
    case onRemove
    note acc = RemoveCallback_accepted [OF assms(2) [unfolded onRemove(2)]]
    from acc assms(3) obtain error where h: "h = OnRemove ?token error"
      by (cases h) auto
    from acc assms(4) have "map_of (jsWeakValuesLists jsEngine2) ?token = Some (args ! 1 # [])"
      by (simp add: h)
    from RemoveDone_calls [OF this, of sc error s] acc show ?thesis
      by (simp add: h last_of_two ErrorParams_def NewValue_def)
  next
    case onWrite
    note acc = WriteCallback_accepted [OF assms(2) [unfolded onWrite(2)]]
    from acc assms(3) obtain error where h: "h = OnWrite ?token error"
      by (cases h) auto
    from acc assms(4) have "map_of (jsWeakValuesLists jsEngine2) ?token = Some (args ! 2 # [])"
      by (simp add: h)
    from WriteDone_calls [OF this, of sc error s] acc show ?thesis
      by (simp add: h last_of_three ErrorParams_def NewValue_def)
  next
    case onMove
    note acc = MoveCallback_accepted [OF assms(2) [unfolded onMove(2)]]
    from acc assms(3) obtain error where h: "h = OnMove ?token error"
      by (cases h) auto
    from acc assms(4) have "map_of (jsWeakValuesLists jsEngine2) ?token = Some (args ! 2 # [])"
      by (simp add: h)
    from MoveDone_calls [OF this, of sc error s] acc show ?thesis
      by (simp add: h last_of_three ErrorParams_def NewValue_def)
  next
    case onReadFromFile
    note acc = ReadFromFileCallback_accepted [OF assms(2) [unfolded onReadFromFile(2)]]
    from acc assms(3) obtain content error where h: "h = OnReadFromFile ?token content error"
      by (cases h) auto
    from acc assms(4)
    have stored: "map_of (jsWeakValuesLists jsEngine2) ?token = Some (args ! 1 # args ! 2 # [])"
      by (simp add: h)
    from acc have l: "last args = args ! 2"
      by (simp add: last_of_three)
    show ?thesis
    proof (cases "error = []")
      case False
      from ReadFromFileDone_error_calls [OF stored False, of sc content s] show ?thesis
        by (simp add: h l False NewValue_def onReadFromFile(1))
    next
      case True
      have "calls (runHandler sc (Some jsEngine2) h s) =
              map (\<lambda>l. Invoked (args ! 1) [JsString l])
                  (linesDelivered sc (args ! 1) (linesOffered h) s) @
              [Invoked (last args) (completionArguments sc (args ! 1) h s)]"
        using ReadFromFileDone_delivers [OF stored assms(5), of sc content s]
        by (simp add: h l True)
      moreover have "length (completionArguments sc (args ! 1) h s) \<le> 1"
        using doneArguments_length [of sc "args ! 1" "linesOffered h" s]
        by (simp add: h True del: linesOffered.simps)
      ultimately show ?thesis
        by (simp add: onReadFromFile(1))
    qed
  qed
  with whole show ?thesis by blast
qed

theorem completion_callback_exactly_once_witness:
  "calls (runHandler quietScript
            (Some (snd (WriteCallback [JsString ''patterns.ini'', JsString ''data'', JsFunction 3] freshEngine)))
            (OnWrite 0 ''disk full'') 0) =
     [Invoked (JsFunction 3) [JsString ''disk full'']]
 \<and> calls (runHandler quietScript
            (Some (snd (ReadFromFileCallback [JsString ''patterns.ini'', JsFunction 1, JsFunction 2] freshEngine)))
            (OnReadFromFile 0 [CHR ''a'', CHR 0x0A, CHR ''b''] []) 0) =
     [Invoked (JsFunction 1) [JsString ''a''], Invoked (JsFunction 1) [JsString ''b''],
      Invoked (JsFunction 2) []]"
proof -
  let ?w = "[JsString ''patterns.ini'', JsString ''data'', JsFunction 3]"
  let ?r = "[JsString ''patterns.ini'', JsFunction 1, JsFunction 2]"
  have w1: "(''write'', WriteCallback) \<in> set Setup"
    by (simp add: Setup_def)
  have w2: "WriteCallback ?w freshEngine = (None, snd (WriteCallback ?w freshEngine))"
    by (simp add: WriteCallback_def StoreJsValues_def WithFileSystem_def freshEngine_def)
  have w3: "handlerClosure (OnWrite 0 ''disk full'') =
            requestClosure (last (fileSystemRequests (snd (WriteCallback ?w freshEngine))))"
    by (simp add: WriteCallback_def StoreJsValues_def WithFileSystem_def freshEngine_def)
  have w5: "globalIsObject (snd (WriteCallback ?w freshEngine))"
    by (simp add: WriteCallback_def StoreJsValues_def WithFileSystem_def freshEngine_def)
  have r1: "(''readFromFile'', ReadFromFileCallback) \<in> set Setup"
    by (simp add: Setup_def)
  have r2: "ReadFromFileCallback ?r freshEngine = (None, snd (ReadFromFileCallback ?r freshEngine))"
    by (simp add: ReadFromFileCallback_def StoreJsValues_def WithFileSystem_def freshEngine_def)
  have r3: "handlerClosure (OnReadFromFile 0 [CHR ''a'', CHR 0x0A, CHR ''b''] []) =
            requestClosure (last (fileSystemRequests (snd (ReadFromFileCallback ?r freshEngine))))"
    by (simp add: ReadFromFileCallback_def StoreJsValues_def WithFileSystem_def freshEngine_def)
  have r5: "globalIsObject (snd (ReadFromFileCallback ?r freshEngine))"
    by (simp add: ReadFromFileCallback_def StoreJsValues_def WithFileSystem_def freshEngine_def)
  have lines: "BufferToLines [CHR ''a'', CHR 0x0A, CHR ''b''] = [''a'', ''b'']"
    by (simp add: BufferToLines.simps IsEndOfLine_def NotEndOfLine_def)
  have w: "calls (runHandler quietScript (Some (snd (WriteCallback ?w freshEngine)))
                    (OnWrite 0 ''disk full'') 0) =
           [Invoked (JsFunction 3) [JsString ''disk full'']]"
    using completion_callback_exactly_once [OF w1 w2 w3 refl w5, of quietScript 0]
    by simp
  have r: "calls (runHandler quietScript (Some (snd (ReadFromFileCallback ?r freshEngine)))
                    (OnReadFromFile 0 [CHR ''a'', CHR 0x0A, CHR ''b''] []) 0) =
           [Invoked (JsFunction 1) [JsString ''a''], Invoked (JsFunction 1) [JsString ''b''],
            Invoked (JsFunction 2) []]"
    using completion_callback_exactly_once [OF r1 r2 r3 refl r5, of quietScript 0]
    by (simp add: lines quietScript_def)
  from w r show ?thesis by simp
qed

end
